theory Spec2Isabelle
  imports Complex_Main
begin

section \<open>Values and exceptions\<close>

text \<open>
  The plugin handles what \<^verbatim>\<open>json.loads\<close> returns: None, booleans, integers, strings,
  lists and dicts with string keys. A dict is an association list; the first binding of
  a key is the one read. Numbers with a fraction are left out: no handler of the
  repository reads one.
\<close>

datatype json =
    JNull
  | JBool bool
  | JInt int
  | JStr string
  | JArr "json list"
  | JObj "(string \<times> json) list"

text \<open>The exceptions the two source files can raise.\<close>

datatype error =
    KeyError
  | IndexError
  | TypeError
  | AttributeError
  | ValueError
  | NotImplementedError
  | JSONDecodeError

text \<open>Python truthiness, as used by \<^verbatim>\<open>if not settings\<close> and \<^verbatim>\<open>if handler\<close>.\<close>

fun truthy :: "json \<Rightarrow> bool" where
  "truthy JNull = False"
| "truthy (JBool b) = b"
| "truthy (JInt n) = (n \<noteq> 0)"
| "truthy (JStr s) = (s \<noteq> [])"
| "truthy (JArr xs) = (xs \<noteq> [])"
| "truthy (JObj kvs) = (kvs \<noteq> [])"

text \<open>Lists and dicts are unhashable: using one as a dict key raises TypeError.\<close>

fun hashable :: "json \<Rightarrow> bool" where
  "hashable (JArr xs) = False"
| "hashable (JObj kvs) = False"
| "hashable v = True"

text \<open>\<^verbatim>\<open>obj[key]\<close> for a string key: only a dict accepts it, and a missing key raises.\<close>

fun subscript :: "json \<Rightarrow> string \<Rightarrow> error + json" where
  "subscript (JObj kvs) k = (case map_of kvs k of None \<Rightarrow> Inl KeyError | Some v \<Rightarrow> Inr v)"
| "subscript v k = Inl TypeError"

text \<open>\<^verbatim>\<open>obj.get(key)\<close> for a string key: only a dict has the method.\<close>

fun dict_get :: "json \<Rightarrow> string \<Rightarrow> error + json" where
  "dict_get (JObj kvs) k = (case map_of kvs k of None \<Rightarrow> Inr JNull | Some v \<Rightarrow> Inr v)"
| "dict_get v k = Inl AttributeError"

definition bindE :: "error + 'a \<Rightarrow> ('a \<Rightarrow> error + 'b) \<Rightarrow> error + 'b" where
  "bindE r f = (case r of Inl e \<Rightarrow> Inl e | Inr v \<Rightarrow> f v)"

section \<open>The plugin object\<close>

text \<open>
  A sink as \<^verbatim>\<open>pulsectl\<close> reports it. \<^verbatim>\<open>volume_pct\<close> stands for
  \<^verbatim>\<open>int(sink.volume.value_flat * 100.0)\<close>, the only way the source reads the volume.
\<close>

record sink =
  index :: int
  description :: string
  mute :: bool
  volume_pct :: int

text \<open>Calls made to the PulseAudio client, in order. Their effect is the library's.\<close>

datatype pulse_call =
    VolumeSetAllChans int rat
  | Mute int bool

datatype log_entry =
    LogError
  | LogInfo

text \<open>
  The fields of \<^verbatim>\<open>SDPlugin\<close> and \<^verbatim>\<open>PulsePlugin\<close>. \<^verbatim>\<open>socket\<close> is the list of
  payloads handed to \<^verbatim>\<open>self.sd.socket.send\<close>, oldest first, before
  \<^verbatim>\<open>json.dumps\<close>; sending is fire-and-forget. \<^verbatim>\<open>server\<close> is what
  \<^verbatim>\<open>pulse.sink_list()\<close> returns when asked. The context-keyed dicts are maps;
  contexts are compared with HOL equality, which is Python's \<^verbatim>\<open>==\<close> on strings.
  A context is a string; for other keys the two differ (\<^verbatim>\<open>True == 1\<close> in Python),
  and the statements below that name a context take a string.
\<close>

record SDPlugin =
  contexts :: "json list"
  ctxSettings :: "json \<rightharpoonup> json"
  ctxInfo :: "json \<rightharpoonup> json"
  settings :: "string \<rightharpoonup> json"
  socket :: "json list"
  logger :: "log_entry list"
  sinks :: "sink list"
  server :: "sink list"
  pulse :: "pulse_call list"
  last_devices :: "json \<rightharpoonup> string"
  last_volumes :: "json \<rightharpoonup> int"

text \<open>A method that returns None: the exception it raised, if any, and the object after it.\<close>

type_synonym outcome = "error option \<times> SDPlugin"

definition send :: "json \<Rightarrow> SDPlugin \<Rightarrow> SDPlugin" where
  "send payload p = p\<lparr>socket := socket p @ [payload]\<rparr>"

subsection \<open>Instance store\<close>

text \<open>The dict literal of \<^verbatim>\<open>setSettings\<close>, its items evaluated in the source's order.\<close>

definition info_of :: "json \<Rightarrow> error + json" where
  "info_of payload =
     bindE (bindE (subscript payload ''payload'') (\<lambda>pp. subscript pp ''coordinates'')) (\<lambda>coordinates.
     bindE (bindE (subscript payload ''payload'') (\<lambda>pp. subscript pp ''controller'')) (\<lambda>controller.
     bindE (bindE (subscript payload ''payload'') (\<lambda>pp. subscript pp ''state'')) (\<lambda>state.
     bindE (bindE (subscript payload ''payload'') (\<lambda>pp. subscript pp ''isInMultiAction'')) (\<lambda>multi.
     bindE (subscript payload ''action'') (\<lambda>action.
       Inr (JObj [(''coordinates'', coordinates), (''controller'', controller),
                  (''state'', state), (''isInMultiAction'', multi), (''action'', action)]))))))"

definition setSettings :: "json \<Rightarrow> SDPlugin \<Rightarrow> outcome" where
  "setSettings payload p =
     (case subscript payload ''context'' of
        Inl e \<Rightarrow> (Some e, p)
      | Inr context \<Rightarrow>
          (let p1 = (if context \<notin> set (contexts p)
                     then p\<lparr>contexts := contexts p @ [context]\<rparr> else p)
           in (case bindE (subscript payload ''payload'') (\<lambda>pp. subscript pp ''settings'') of
                 Inl e \<Rightarrow> (Some e, p1)
               | Inr s \<Rightarrow>
                   if \<not> hashable context then (Some TypeError, p1)
                   else (let p2 = p1\<lparr>ctxSettings := (ctxSettings p1)(context \<mapsto> s)\<rparr>
                         in (case info_of payload of
                               Inl e \<Rightarrow> (Some e, p2)
                             | Inr i \<Rightarrow>
                                 (None, p2\<lparr>ctxInfo := (ctxInfo p2)(context \<mapsto> i)\<rparr>))))))"

text \<open>\<^verbatim>\<open>list.pop(list.index(x))\<close>: drop the first occurrence.\<close>

definition removeSettings :: "json \<Rightarrow> SDPlugin \<Rightarrow> outcome" where
  "removeSettings payload p =
     (case subscript payload ''context'' of
        Inl e \<Rightarrow> (Some e, p)
      | Inr context \<Rightarrow>
          if context \<notin> set (contexts p) then (Some ValueError, p)
          else let p1 = p\<lparr>contexts := remove1 context (contexts p)\<rparr>
               in if \<not> hashable context then (Some TypeError, p1)
                  else if ctxSettings p1 context = None then (Some KeyError, p1)
                  else let p2 = p1\<lparr>ctxSettings := (ctxSettings p1)(context := None)\<rparr>
                       in if ctxInfo p2 context = None then (Some KeyError, p2)
                          else (None, p2\<lparr>ctxInfo := (ctxInfo p2)(context := None)\<rparr>))"

subsection \<open>Outbound commands\<close>

definition SetImage :: "json \<Rightarrow> json \<Rightarrow> json \<Rightarrow> json \<Rightarrow> SDPlugin \<Rightarrow> outcome" where
  "SetImage context img state target p =
     (None, send (JObj [(''context'', context), (''event'', JStr ''setImage''),
                        (''payload'', JObj [(''image'', img), (''state'', state),
                                            (''target'', target)])]) p)"

definition SetState :: "json \<Rightarrow> int \<Rightarrow> SDPlugin \<Rightarrow> outcome" where
  "SetState context state p =
     (if state < 0 \<or> state > 1 then (Some ValueError, p)
      else (None, send (JObj [(''event'', JStr ''setState''), (''context'', context),
                              (''payload'', JObj [(''state'', JInt state)])]) p))"

definition SetFeedback :: "json \<Rightarrow> json \<Rightarrow> SDPlugin \<Rightarrow> outcome" where
  "SetFeedback context data p = (Some NotImplementedError, p)"

definition ShowAlert :: "json \<Rightarrow> SDPlugin \<Rightarrow> outcome" where
  "ShowAlert context p =
     (None, send (JObj [(''event'', JStr ''showAlert''), (''context'', context)]) p)"

definition ShowOk :: "json \<Rightarrow> SDPlugin \<Rightarrow> outcome" where
  "ShowOk context p =
     (None, send (JObj [(''event'', JStr ''showOk''), (''context'', context)]) p)"

section \<open>Strings\<close>

text \<open>
  A string is a list of characters with codes 0 to 255; a code point above 255 is
  outside the model. \<^verbatim>\<open>upper_char\<close> is \<^verbatim>\<open>str.upper()\<close> on one ASCII character:
  a lower-case letter gives its capital, any other ASCII character is kept. A
  character from 128 to 255 is kept too, which is not what \<^verbatim>\<open>str.upper()\<close> does
  with every one of them; the statements on the router take an ASCII first character,
  and \<^verbatim>\<open>getattr_non_ascii\<close> below covers the others.
\<close>

definition is_ascii :: "char \<Rightarrow> bool" where
  "is_ascii c = (of_char c < (128::nat))"

definition upper_char :: "char \<Rightarrow> char" where
  "upper_char c =
     (case map_of (zip ''abcdefghijklmnopqrstuvwxyz'' ''ABCDEFGHIJKLMNOPQRSTUVWXYZ'') c of
        None \<Rightarrow> c | Some u \<Rightarrow> u)"

text \<open>\<^verbatim>\<open>s.split(".")[-1]\<close>: what follows the last dot, or all of \<^verbatim>\<open>s\<close>.\<close>

definition last_segment :: "string \<Rightarrow> string" where
  "last_segment s = rev (takeWhile (\<lambda>c. c \<noteq> CHR ''.'') (rev s))"

text \<open>\<^verbatim>\<open>x.split(".")[-1]\<close> on a value: only a string has \<^verbatim>\<open>split\<close>.\<close>

fun split_last :: "json \<Rightarrow> error + string" where
  "split_last (JStr s) = Inr (last_segment s)"
| "split_last v = Inl AttributeError"

definition is_space :: "char \<Rightarrow> bool" where
  "is_space c = (c \<in> set [CHR '' '', CHR 0x09, CHR 0x0A, CHR 0x0B, CHR 0x0C, CHR 0x0D,
                           CHR 0x1C, CHR 0x1D, CHR 0x1E, CHR 0x1F, CHR 0x85, CHR 0xA0])"

definition strip :: "string \<Rightarrow> string" where
  "strip s = rev (dropWhile is_space (rev (dropWhile is_space s)))"

fun starts_with :: "string \<Rightarrow> string \<Rightarrow> bool" where
  "starts_with [] s = True"
| "starts_with (k # ks) [] = False"
| "starts_with (k # ks) (c # cs) = (k = c \<and> starts_with ks cs)"

fun substring :: "string \<Rightarrow> string \<Rightarrow> bool" where
  "substring k [] = (k = [])"
| "substring k (c # cs) = (starts_with k (c # cs) \<or> substring k cs)"

text \<open>\<^verbatim>\<open>key in x\<close> for a string key: dict keys, substring of a string, element of a list.\<close>

fun contains :: "string \<Rightarrow> json \<Rightarrow> error + bool" where
  "contains k (JObj kvs) = Inr (map_of kvs k \<noteq> None)"
| "contains k (JStr s) = Inr (substring k s)"
| "contains k (JArr xs) = Inr (JStr k \<in> set xs)"
| "contains k v = Inl TypeError"

section \<open>The audio plugin\<close>

definition get_sink :: "int \<Rightarrow> SDPlugin \<Rightarrow> sink option" where
  "get_sink i p = find (\<lambda>s. index s = i) (sinks p)"

definition get_sink_from_name :: "json \<Rightarrow> SDPlugin \<Rightarrow> sink option" where
  "get_sink_from_name name p = find (\<lambda>s. JStr (description s) = name) (sinks p)"

definition get_volume :: "int \<Rightarrow> SDPlugin \<Rightarrow> int option" where
  "get_volume i p = (case get_sink i p of Some s \<Rightarrow> Some (volume_pct s) | None \<Rightarrow> None)"

text \<open>The float arithmetic of \<^verbatim>\<open>set_volume\<close> is done on rationals.\<close>

definition set_volume :: "int \<Rightarrow> int \<Rightarrow> SDPlugin \<Rightarrow> bool \<times> SDPlugin" where
  "set_volume i volume p =
     (case get_sink i p of
        Some s \<Rightarrow>
          let v = (if volume > 1 then of_int volume / 100 else of_int volume);
              val = max 0 (min 1 v)
          in (True, p\<lparr>pulse := pulse p @ [VolumeSetAllChans (index s) val]\<rparr>)
      | None \<Rightarrow> (False, p))"

definition refresh :: "SDPlugin \<Rightarrow> SDPlugin" where
  "refresh p = p\<lparr>sinks := server p\<rparr>"

definition toggle_mute :: "int \<Rightarrow> SDPlugin \<Rightarrow> SDPlugin" where
  "toggle_mute i p =
     (case get_sink i p of
        Some s \<Rightarrow> p\<lparr>pulse := pulse p @ [Mute (index s) (\<not> mute s)]\<rparr>
      | None \<Rightarrow> p)"

text \<open>\<^verbatim>\<open>d.get(context)\<close> on a context-keyed dict, None when absent.\<close>

definition ctx_get :: "(json \<rightharpoonup> json) \<Rightarrow> json \<Rightarrow> error + json" where
  "ctx_get d context =
     (if \<not> hashable context then Inl TypeError
      else Inr (case d context of None \<Rightarrow> JNull | Some v \<Rightarrow> v))"

text \<open>\<^verbatim>\<open>(nickname.strip() if nickname else None) or sink.description\<close>\<close>

fun nickname_of :: "json \<Rightarrow> string \<Rightarrow> error + string" where
  "nickname_of (JStr n) d = Inr (if n \<noteq> [] \<and> strip n \<noteq> [] then strip n else d)"
| "nickname_of v d = (if truthy v then Inl AttributeError else Inr d)"

text \<open>The second half of \<^verbatim>\<open>on_loop\<close>, once the sink is known.\<close>

definition show_volume :: "(int \<Rightarrow> string \<Rightarrow> string) \<Rightarrow> json \<Rightarrow> sink \<Rightarrow> string \<Rightarrow> SDPlugin \<Rightarrow> outcome" where
  "show_volume show_sink_info context s nickname p =
     (let volume = (if mute s then 0 else volume_pct s);
          p1 = (if last_devices p context = None
                then p\<lparr>last_devices := (last_devices p)(context \<mapsto> nickname)\<rparr> else p);
          p2 = (if last_volumes p1 context = None
                then p1\<lparr>last_volumes := (last_volumes p1)(context \<mapsto> volume)\<rparr> else p1)
      in if last_devices p2 context \<noteq> Some nickname \<or> last_volumes p2 context \<noteq> Some volume
         then (case SetImage context (JStr (show_sink_info volume nickname)) JNull JNull p2 of
                 (Some e, p3) \<Rightarrow> (Some e, p3)
               | (None, p3) \<Rightarrow>
                   (None, p3\<lparr>last_devices := (last_devices p3)(context \<mapsto> nickname),
                             last_volumes := (last_volumes p3)(context \<mapsto> volume)\<rparr>))
         else (None, p2))"

text \<open>
  \<^verbatim>\<open>PulsePlugin.on_loop\<close>. The renderer \<^verbatim>\<open>show_sink_info\<close> draws with an imaging
  library and is a parameter.
\<close>

definition on_loop :: "(int \<Rightarrow> string \<Rightarrow> string) \<Rightarrow> json \<Rightarrow> SDPlugin \<Rightarrow> outcome" where
  "on_loop show_sink_info context p =
     (case ctx_get (ctxSettings p) context of
        Inl e \<Rightarrow> (Some e, p)
      | Inr setts \<Rightarrow>
     (case ctx_get (ctxInfo p) context of
        Inl e \<Rightarrow> (Some e, p)
      | Inr info \<Rightarrow>
          if \<not> truthy setts \<or> \<not> truthy info then (None, p)
          else
     (case bindE (subscript info ''action'') split_last of
        Inl e \<Rightarrow> (Some e, p)
      | Inr action \<Rightarrow>
          if action \<noteq> ''showvol'' then (None, p)
          else
     (case dict_get setts ''audioDevice'' of
        Inl e \<Rightarrow> (Some e, p)
      | Inr device \<Rightarrow>
          if \<not> truthy device then (None, p)
          else
     (case get_sink_from_name device p of
        None \<Rightarrow> (None, p\<lparr>logger := logger p @ [LogError]\<rparr>)
      | Some s \<Rightarrow>
     (case bindE (dict_get setts ''deviceNickname'') (\<lambda>n. nickname_of n (description s)) of
        Inl e \<Rightarrow> (Some e, p)
      | Inr nickname \<Rightarrow> show_volume show_sink_info context s nickname p))))))"

text \<open>The hook of the base class: \<^verbatim>\<open>SDPlugin.on_loop\<close> is \<^verbatim>\<open>pass\<close>.\<close>

definition on_loop_base :: "json \<Rightarrow> SDPlugin \<Rightarrow> outcome" where
  "on_loop_base context p = (None, p)"

text \<open>The fields sent to the property inspector by \<^verbatim>\<open>get_settings\<close>.\<close>

definition settings_fields :: "json \<Rightarrow> json list \<Rightarrow> json list \<Rightarrow> json" where
  "settings_fields val options extra =
     JObj [(''event'', JStr ''getSettingsFields''),
           (''settingsFields'', JArr
              (JObj [(''type'', JStr ''dropdown''), (''name'', JStr ''audioDevice''),
                     (''label'', JStr ''Audio Sinks''), (''value'', val),
                     (''options'', JArr options)]
               # extra))]"

definition nickname_field :: "json \<Rightarrow> json" where
  "nickname_field nickname =
     JObj [(''type'', JStr ''text''), (''name'', JStr ''deviceNickname''),
           (''label'', JStr ''Device Nickname''), (''value'', nickname)]"

text \<open>The text field appended for a \<^verbatim>\<open>showvol\<close> action, as a list of zero or one field.\<close>

definition extra_fields :: "json \<Rightarrow> json \<Rightarrow> error + json list" where
  "extra_fields info setts =
     (if \<not> truthy info then Inr []
      else bindE (bindE (subscript info ''action'') split_last) (\<lambda>action.
             if action = ''showvol''
             then bindE (dict_get setts ''deviceNickname'') (\<lambda>n. Inr [nickname_field n])
             else Inr []))"

definition get_settings :: "json \<Rightarrow> SDPlugin \<Rightarrow> outcome" where
  "get_settings context p0 =
     (let p = refresh p0;
          options = map (\<lambda>s. JStr (description s)) (sinks p)
      in if \<not> hashable context then (Some TypeError, p)
         else
           let p1 = (if ctxSettings p context = None
                     then p\<lparr>ctxSettings := (ctxSettings p)(context \<mapsto> JObj [])\<rparr> else p);
               setts = (case ctxSettings p1 context of None \<Rightarrow> JNull | Some v \<Rightarrow> v)
           in case bindE (contains ''audioDevice'' setts)
                     (\<lambda>b. if b then subscript setts ''audioDevice'' else Inr JNull) of
                Inl e \<Rightarrow> (Some e, p1)
              | Inr val \<Rightarrow>
                  (case extra_fields (case ctxInfo p1 context of None \<Rightarrow> JNull | Some v \<Rightarrow> v) setts of
                     Inl e \<Rightarrow> (Some e, p1)
                   | Inr extra \<Rightarrow>
                       (None, send (JObj [(''context'', context),
                                          (''event'', JStr ''sendToPropertyInspector''),
                                          (''payload'', settings_fields val options extra)]) p1)))"

definition onSendToPlugin :: "json \<Rightarrow> SDPlugin \<Rightarrow> outcome" where
  "onSendToPlugin payload p =
     (case subscript payload ''context'' of
        Inl e \<Rightarrow> (Some e, p)
      | Inr context \<Rightarrow> get_settings context p)"

definition onPropertyInspectorDidAppear :: "json \<Rightarrow> SDPlugin \<Rightarrow> outcome" where
  "onPropertyInspectorDidAppear payload p =
     (case subscript payload ''context'' of
        Inl e \<Rightarrow> (Some e, p)
      | Inr context \<Rightarrow> get_settings context p)"

text \<open>The error exit of \<^verbatim>\<open>onKeyUp\<close>: log, alert, return.\<close>

definition alert_exit :: "json \<Rightarrow> SDPlugin \<Rightarrow> outcome" where
  "alert_exit context p = ShowAlert context (p\<lparr>logger := logger p @ [LogError]\<rparr>)"

definition key_action :: "string \<Rightarrow> sink \<Rightarrow> SDPlugin \<Rightarrow> SDPlugin" where
  "key_action action s p =
     (if action = ''volup''
      then (case get_volume (index s) p of
              Some current \<Rightarrow> snd (set_volume (index s) (current + 5) p) | None \<Rightarrow> p)
      else if action = ''voldown''
      then (case get_volume (index s) p of
              Some current \<Rightarrow> snd (set_volume (index s) (current - 5) p) | None \<Rightarrow> p)
      else if action = ''mute'' then toggle_mute (index s) p
      else if action = ''showvol'' then toggle_mute (index s) p
      else p)"

definition onKeyUp :: "json \<Rightarrow> SDPlugin \<Rightarrow> outcome" where
  "onKeyUp payload p =
     (case bindE (subscript payload ''action'') split_last of
        Inl e \<Rightarrow> (Some e, p)
      | Inr action \<Rightarrow>
     (case subscript payload ''context'' of
        Inl e \<Rightarrow> (Some e, p)
      | Inr context \<Rightarrow>
     (case ctx_get (ctxSettings p) context of
        Inl e \<Rightarrow> (Some e, p)
      | Inr setts \<Rightarrow>
          if \<not> truthy setts then alert_exit context p
          else
     (case dict_get setts ''audioDevice'' of
        Inl e \<Rightarrow> (Some e, p)
      | Inr device \<Rightarrow>
          if \<not> truthy device then alert_exit context p
          else
     (case get_sink_from_name device p of
        None \<Rightarrow> alert_exit context p
      | Some s \<Rightarrow> (None, key_action action s p))))))"

section \<open>The event router\<close>

text \<open>
  The attributes of the plugin object whose name starts with \<^verbatim>\<open>on\<close>: the event
  handlers of \<^verbatim>\<open>SDPlugin\<close> (three of them overridden by \<^verbatim>\<open>PulsePlugin\<close>) and the
  refresh hook \<^verbatim>\<open>on_loop\<close>.
\<close>

datatype handler =
    H_on_loop
  | H_onDidReceiveSettings
  | H_onDidReceiveGlobalSettings
  | H_onWillAppear
  | H_onWillDisappear
  | H_onSendToPlugin
  | H_onApplicationDidLaunch
  | H_onApplicationDidTerminate
  | H_onDeviceDidChange
  | H_onDeviceDidConnect
  | H_onDeviceDidDisconnect
  | H_onDialDown
  | H_onDialRotate
  | H_onDialUp
  | H_onDidReceiveDeepLink
  | H_onDidReceivePropertyInspectorMessage
  | H_onDidReceiveResources
  | H_onDidReceiveSecrets
  | H_onKeyDown
  | H_onKeyUp
  | H_onPropertyInspectorDidAppear
  | H_onPropertyInspectorDidDisappear
  | H_onSystemDidWakeUp
  | H_onTitleParametersDidChange
  | H_onTouchTap

text \<open>The handlers of host events: the methods under the "API Handlers" comments.\<close>

definition event_handlers :: "(string \<times> handler) list" where
  "event_handlers =
     [(''onDidReceiveSettings'', H_onDidReceiveSettings),
      (''onDidReceiveGlobalSettings'', H_onDidReceiveGlobalSettings),
      (''onWillAppear'', H_onWillAppear),
      (''onWillDisappear'', H_onWillDisappear),
      (''onSendToPlugin'', H_onSendToPlugin),
      (''onApplicationDidLaunch'', H_onApplicationDidLaunch),
      (''onApplicationDidTerminate'', H_onApplicationDidTerminate),
      (''onDeviceDidChange'', H_onDeviceDidChange),
      (''onDeviceDidConnect'', H_onDeviceDidConnect),
      (''onDeviceDidDisconnect'', H_onDeviceDidDisconnect),
      (''onDialDown'', H_onDialDown),
      (''onDialRotate'', H_onDialRotate),
      (''onDialUp'', H_onDialUp),
      (''onDidReceiveDeepLink'', H_onDidReceiveDeepLink),
      (''onDidReceivePropertyInspectorMessage'', H_onDidReceivePropertyInspectorMessage),
      (''onDidReceiveResources'', H_onDidReceiveResources),
      (''onDidReceiveSecrets'', H_onDidReceiveSecrets),
      (''onKeyDown'', H_onKeyDown),
      (''onKeyUp'', H_onKeyUp),
      (''onPropertyInspectorDidAppear'', H_onPropertyInspectorDidAppear),
      (''onPropertyInspectorDidDisappear'', H_onPropertyInspectorDidDisappear),
      (''onSystemDidWakeUp'', H_onSystemDidWakeUp),
      (''onTitleParametersDidChange'', H_onTitleParametersDidChange),
      (''onTouchTap'', H_onTouchTap)]"

text \<open>
  \<^verbatim>\<open>getattr(self.plugin, method_name, None)\<close> for a name that starts with \<^verbatim>\<open>on\<close>.
\<close>

definition getattr :: "string \<Rightarrow> handler option" where
  "getattr name = map_of ((''on_loop'', H_on_loop) # event_handlers) name"

text \<open>\<^verbatim>\<open>f"on{event[0].upper()}{event[1:]}"\<close> for a non-empty string.\<close>

definition method_name :: "string \<Rightarrow> string" where
  "method_name event = ''on'' @ upper_char (hd event) # tl event"

text \<open>
  From the \<^verbatim>\<open>event\<close> value to the attribute found. An empty string or list has no
  element 0; None and numbers take no subscript; a dict has no key 0; the first
  element of a list needs \<^verbatim>\<open>upper\<close>, and the name built from a list ends with the
  list's \<^verbatim>\<open>repr\<close>, which no attribute's name does.
\<close>

fun find_handler :: "json \<Rightarrow> error + handler option" where
  "find_handler (JStr e) = (if e = [] then Inl IndexError else Inr (getattr (method_name e)))"
| "find_handler (JArr []) = Inl IndexError"
| "find_handler (JArr (JStr s # xs)) = Inr None"
| "find_handler (JArr (x # xs)) = Inl AttributeError"
| "find_handler (JObj kvs) = Inl KeyError"
| "find_handler v = Inl TypeError"

text \<open>A handler called with the parsed frame. \<^verbatim>\<open>onSystemDidWakeUp\<close> takes no argument.\<close>

fun call1 :: "(int \<Rightarrow> string \<Rightarrow> string) \<Rightarrow> handler \<Rightarrow> json \<Rightarrow> SDPlugin \<Rightarrow> outcome" where
  "call1 r H_on_loop x p = on_loop r x p"
| "call1 r H_onDidReceiveSettings x p = setSettings x p"
| "call1 r H_onWillAppear x p = setSettings x p"
| "call1 r H_onWillDisappear x p = removeSettings x p"
| "call1 r H_onSendToPlugin x p = onSendToPlugin x p"
| "call1 r H_onKeyUp x p = onKeyUp x p"
| "call1 r H_onPropertyInspectorDidAppear x p = onPropertyInspectorDidAppear x p"
| "call1 r H_onSystemDidWakeUp x p = (Some TypeError, p)"
| "call1 r h x p = (None, p)"

text \<open>A handler called with no argument: every one but \<^verbatim>\<open>onSystemDidWakeUp\<close> needs one.\<close>

definition call0 :: "handler \<Rightarrow> SDPlugin \<Rightarrow> outcome" where
  "call0 h p = (if h = H_onSystemDidWakeUp then (None, p) else (Some TypeError, p))"

section \<open>The connection object\<close>

definition MAX_ERRORS :: int where
  "MAX_ERRORS = 5"

text \<open>
  The fields of \<^verbatim>\<open>StreamDeck\<close> that the handlers and the loop use. \<^verbatim>\<open>logging\<close> is
  what the module-level logger has printed. \<^verbatim>\<open>polled\<close> is an observation, not a
  field: the contexts on which \<^verbatim>\<open>image_loop\<close> has called the hook, oldest first.
\<close>

record StreamDeck =
  running :: bool
  errors :: "json \<rightharpoonup> int"
  plugin :: SDPlugin
  logging :: "log_entry list"
  polled :: "json list"

text \<open>What a call returns to the router, and what the \<^verbatim>\<open>event\<close> field selects.\<close>

datatype dispatch =
    Call0 handler
  | Call1 handler
  | NoHandler
  | Raises error
  | NotMapping

definition route :: "json \<Rightarrow> dispatch" where
  "route parsed =
     (case parsed of
        JObj kvs \<Rightarrow>
          (let event = (case map_of kvs ''event'' of None \<Rightarrow> JNull | Some v \<Rightarrow> v)
           in case find_handler event of
                Inl e \<Rightarrow> Raises e
              | Inr None \<Rightarrow> NoHandler
              | Inr (Some h) \<Rightarrow> if event = JStr ''systemDidWakeUp'' then Call0 h else Call1 h)
      | _ \<Rightarrow> NotMapping)"

text \<open>
  The body of the \<^verbatim>\<open>try\<close> in \<^verbatim>\<open>on_message\<close>. \<^verbatim>\<open>on_message_handler\<close> is None in
  this program. \<^verbatim>\<open>json.loads\<close> is a parameter.
\<close>

definition on_message_try ::
  "(string \<Rightarrow> error + json) \<Rightarrow> (int \<Rightarrow> string \<Rightarrow> string) \<Rightarrow> string \<Rightarrow> StreamDeck
     \<Rightarrow> error option \<times> StreamDeck" where
  "on_message_try loads r msg sd =
     (case loads msg of
        Inl e \<Rightarrow> (Some e, sd)
      | Inr parsed \<Rightarrow>
          (case route parsed of
             NotMapping \<Rightarrow> (None, sd)
           | Raises e \<Rightarrow> (Some e, sd)
           | NoHandler \<Rightarrow> (None, sd\<lparr>logging := logging sd @ [LogError]\<rparr>)
           | Call0 h \<Rightarrow> (case call0 h (plugin sd) of (res, p) \<Rightarrow> (res, sd\<lparr>plugin := p\<rparr>))
           | Call1 h \<Rightarrow> (case call1 r h parsed (plugin sd) of (res, p) \<Rightarrow> (res, sd\<lparr>plugin := p\<rparr>))))"

text \<open>\<^verbatim>\<open>on_message\<close>: the \<^verbatim>\<open>except Exception\<close> logs and returns.\<close>

definition on_message ::
  "(string \<Rightarrow> error + json) \<Rightarrow> (int \<Rightarrow> string \<Rightarrow> string) \<Rightarrow> string \<Rightarrow> StreamDeck
     \<Rightarrow> error option \<times> StreamDeck" where
  "on_message loads r msg sd =
     (case on_message_try loads r msg sd of
        (None, sd1) \<Rightarrow> (None, sd1)
      | (Some e, sd1) \<Rightarrow> (None, sd1\<lparr>logging := logging sd1 @ [LogError]\<rparr>))"

definition on_close :: "StreamDeck \<Rightarrow> StreamDeck" where
  "on_close sd = sd\<lparr>running := False, logging := logging sd @ [LogInfo]\<rparr>"

subsection \<open>The polling loop\<close>

datatype control =
    Next
  | Break
  | Uncaught error

text \<open>
  One pass through the body of the \<^verbatim>\<open>for\<close> of \<^verbatim>\<open>image_loop\<close>, for any hook. An
  exception raised inside the \<^verbatim>\<open>except\<close> block leaves the loop and ends its thread.
\<close>

definition loop_body :: "(json \<Rightarrow> SDPlugin \<Rightarrow> outcome) \<Rightarrow> json \<Rightarrow> StreamDeck \<Rightarrow> control \<times> StreamDeck" where
  "loop_body hook ctx sd0 =
     (let sd = sd0\<lparr>polled := polled sd0 @ [ctx]\<rparr>
      in case hook ctx (plugin sd) of
           (None, p) \<Rightarrow> (Next, sd\<lparr>plugin := p\<rparr>)
         | (Some e, p) \<Rightarrow>
             let sd1 = sd\<lparr>plugin := p\<rparr>
             in if \<not> hashable ctx then (Uncaught TypeError, sd1)
                else
                  let sd2 = (if errors sd1 ctx = None
                             then sd1\<lparr>errors := (errors sd1)(ctx \<mapsto> 0)\<rparr> else sd1);
                      n = (case errors sd2 ctx of None \<Rightarrow> 0 | Some k \<Rightarrow> k) + 1;
                      sd3 = sd2\<lparr>errors := (errors sd2)(ctx \<mapsto> n),
                                logging := logging sd2 @ [LogError]\<rparr>
                  in if n \<ge> MAX_ERRORS
                     then (case ShowAlert ctx (plugin sd3) of
                             (Some e2, p2) \<Rightarrow> (Uncaught e2, sd3\<lparr>plugin := p2\<rparr>)
                           | (None, p2) \<Rightarrow> (Break, sd3\<lparr>plugin := p2, running := False\<rparr>))
                     else (Next, sd3))"

text \<open>
  Where the loop's thread stands: at the test of the \<^verbatim>\<open>while\<close>, in the \<^verbatim>\<open>for\<close>
  before element \<^verbatim>\<open>i\<close> of the list it iterates, or ended (returned, or killed by an
  exception). The \<^verbatim>\<open>for\<close> reads the list as it is when each element is fetched.
\<close>

datatype pc =
    AtWhile
  | AtFor nat
  | Returned
  | Died error

fun loop_step :: "(json \<Rightarrow> SDPlugin \<Rightarrow> outcome) \<Rightarrow> pc \<times> StreamDeck \<Rightarrow> pc \<times> StreamDeck" where
  "loop_step hook (AtWhile, sd) = (if running sd then (AtFor 0, sd) else (Returned, sd))"
| "loop_step hook (AtFor i, sd) =
     (if i < length (contexts (plugin sd))
      then (case loop_body hook (contexts (plugin sd) ! i) sd of
              (Next, sd1) \<Rightarrow> (AtFor (Suc i), sd1)
            | (Break, sd1) \<Rightarrow> (AtWhile, sd1)
            | (Uncaught e, sd1) \<Rightarrow> (Died e, sd1))
      else (AtWhile, sd))"
| "loop_step hook (Returned, sd) = (Returned, sd)"
| "loop_step hook (Died e, sd) = (Died e, sd)"

text \<open>\<^verbatim>\<open>image_loop\<close>, run for \<^verbatim>\<open>n\<close> steps from the test of the \<^verbatim>\<open>while\<close>.\<close>

definition image_loop :: "nat \<Rightarrow> (json \<Rightarrow> SDPlugin \<Rightarrow> outcome) \<Rightarrow> StreamDeck \<Rightarrow> pc \<times> StreamDeck" where
  "image_loop n hook sd = (loop_step hook ^^ n) (AtWhile, sd)"

subsection \<open>Start\<close>

text \<open>The objects after \<^verbatim>\<open>PulsePlugin.__init__\<close>, for the sinks the server reports.\<close>

definition plugin_init :: "sink list \<Rightarrow> SDPlugin" where
  "plugin_init srv =
     refresh \<lparr>contexts = [], ctxSettings = Map.empty, ctxInfo = Map.empty,
              settings = Map.empty, socket = [], logger = [], sinks = [], server = srv,
              pulse = [], last_devices = Map.empty, last_volumes = Map.empty\<rparr>"

definition streamdeck_init :: "sink list \<Rightarrow> StreamDeck" where
  "streamdeck_init srv =
     \<lparr>running = False, errors = Map.empty, plugin = plugin_init srv, logging = [],
      polled = []\<rparr>"

text \<open>\<^verbatim>\<open>run\<close> sets the flag and starts the loop's thread at the test of the \<^verbatim>\<open>while\<close>.\<close>

definition run :: "StreamDeck \<Rightarrow> pc \<times> StreamDeck" where
  "run sd = (AtWhile, sd\<lparr>running := True, logging := logging sd @ [LogInfo]\<rparr>)"

section \<open>Notions used in the statements\<close>

text \<open>\<^verbatim>\<open>self.errors.get(ctx, 0)\<close>: the count of a context, 0 when it has no entry.\<close>

definition count_of :: "StreamDeck \<Rightarrow> json \<Rightarrow> int" where
  "count_of sd ctx = (case errors sd ctx of None \<Rightarrow> 0 | Some k \<Rightarrow> k)"

text \<open>The payload that \<^verbatim>\<open>ShowAlert\<close> sends for a context.\<close>

definition alert :: "json \<Rightarrow> json" where
  "alert ctx = JObj [(''event'', JStr ''showAlert''), (''context'', ctx)]"

text \<open>A frame makes the router call a handler.\<close>

definition invokes :: "(string \<Rightarrow> error + json) \<Rightarrow> string \<Rightarrow> bool" where
  "invokes loads msg =
     (case loads msg of
        Inl e \<Rightarrow> False
      | Inr parsed \<Rightarrow>
          (case route parsed of Call0 h \<Rightarrow> True | Call1 h \<Rightarrow> True | _ \<Rightarrow> False))"

text \<open>
  A frame carries a string context and every field that \<^verbatim>\<open>setSettings\<close> reads: the
  settings, the four fields of the inner payload and the action.
\<close>

definition complete_appear :: "json \<Rightarrow> bool" where
  "complete_appear x =
     ((case subscript x ''context'' of Inr (JStr c) \<Rightarrow> True | _ \<Rightarrow> False) \<and>
      \<not> isl (bindE (subscript x ''payload'') (\<lambda>pp. subscript pp ''settings'')) \<and>
      \<not> isl (info_of x))"

text \<open>A frame that is routed to \<^verbatim>\<open>setSettings\<close> is complete.\<close>

definition frame_ok :: "json \<Rightarrow> bool" where
  "frame_ok parsed =
     (route parsed \<in> {Call1 H_onWillAppear, Call1 H_onDidReceiveSettings}
        \<longrightarrow> complete_appear parsed)"

text \<open>
  The states of a run: after \<^verbatim>\<open>run\<close>, any frame whose appear-style payload is
  complete may arrive, the loop may call the hook of the audio plugin on any context,
  the connection may close, and the sound server may change its list of sinks.
\<close>

inductive reachable ::
  "(string \<Rightarrow> error + json) \<Rightarrow> (int \<Rightarrow> string \<Rightarrow> string) \<Rightarrow> StreamDeck \<Rightarrow> bool"
  for loads r where
    start: "reachable loads r (snd (run (streamdeck_init srv)))"
  | message: "reachable loads r sd \<Longrightarrow>
              (case loads msg of Inl e \<Rightarrow> True | Inr parsed \<Rightarrow> frame_ok parsed) \<Longrightarrow>
              reachable loads r (snd (on_message loads r msg sd))"
  | poll: "reachable loads r sd \<Longrightarrow> reachable loads r (snd (loop_body (on_loop r) ctx sd))"
  | close: "reachable loads r sd \<Longrightarrow> reachable loads r (on_close sd)"
  | sinks: "reachable loads r sd \<Longrightarrow>
            reachable loads r (sd\<lparr>plugin := (plugin sd)\<lparr>server := srv\<rparr>\<rparr>)"

text \<open>
  What the instance store keeps: no context is listed twice, every listed context is
  hashable, the listed contexts are those with an info entry, and every context with
  an info entry has a settings entry.
\<close>

definition store_inv :: "SDPlugin \<Rightarrow> bool" where
  "store_inv p =
     (distinct (contexts p) \<and> (\<forall>c \<in> set (contexts p). hashable c) \<and>
      set (contexts p) = dom (ctxInfo p) \<and> dom (ctxInfo p) \<subseteq> dom (ctxSettings p))"

text \<open>
  What the store keeps whatever the frames are: no context is listed twice, and every
  context with an info entry has a settings entry.
\<close>

definition entries_ok :: "SDPlugin \<Rightarrow> bool" where
  "entries_ok p = (distinct (contexts p) \<and> dom (ctxInfo p) \<subseteq> dom (ctxSettings p))"

definition same_store :: "SDPlugin \<Rightarrow> SDPlugin \<Rightarrow> bool" where
  "same_store p q =
     (contexts q = contexts p \<and> ctxSettings q = ctxSettings p \<and> ctxInfo q = ctxInfo p)"

subsection \<open>Sample inputs\<close>

text \<open>A parser that returns a given value, one that rejects its input, a renderer.\<close>

definition loads_const :: "json \<Rightarrow> string \<Rightarrow> error + json" where
  "loads_const v msg = Inr v"

definition loads_fail :: "string \<Rightarrow> error + json" where
  "loads_fail msg = Inl JSONDecodeError"

definition no_render :: "int \<Rightarrow> string \<Rightarrow> string" where
  "no_render volume name = []"

text \<open>A hook that raises on every context.\<close>

definition always_fails :: "json \<Rightarrow> SDPlugin \<Rightarrow> outcome" where
  "always_fails context p = (Some ValueError, p)"

text \<open>An appear event with every field, the same without \<^verbatim>\<open>state\<close>, a disappear event.\<close>

definition appear_A :: json where
  "appear_A =
     JObj [(''event'', JStr ''willAppear''), (''context'', JStr ''ABC123''),
           (''action'', JStr ''com.example.showvol''),
           (''payload'', JObj [(''settings'', JObj [(''audioDevice'', JStr ''Speakers'')]),
              (''coordinates'', JObj [(''column'', JInt 0), (''row'', JInt 0)]),
              (''controller'', JStr ''Keypad''), (''state'', JInt 0),
              (''isInMultiAction'', JBool False)])]"

definition appear_no_state :: json where
  "appear_no_state =
     JObj [(''event'', JStr ''willAppear''), (''context'', JStr ''ABC123''),
           (''action'', JStr ''com.example.showvol''),
           (''payload'', JObj [(''settings'', JObj [(''audioDevice'', JStr ''Speakers'')]),
              (''coordinates'', JObj [(''column'', JInt 0), (''row'', JInt 0)]),
              (''controller'', JStr ''Keypad''),
              (''isInMultiAction'', JBool False)])]"

definition disappear_A :: json where
  "disappear_A =
     JObj [(''event'', JStr ''willDisappear''), (''context'', JStr ''ABC123''),
           (''action'', JStr ''com.example.showvol'')]"

text \<open>The plugin once \<^verbatim>\<open>appear_A\<close> has been handled.\<close>

definition plugin_A :: SDPlugin where
  "plugin_A = snd (setSettings appear_A (plugin_init []))"

text \<open>A running connection whose one context has failed four times.\<close>

definition sd_four :: StreamDeck where
  "sd_four =
     (streamdeck_init [])\<lparr>running := True, errors := [JStr ''X1'' \<mapsto> 4],
        plugin := (plugin_init [])\<lparr>contexts := [JStr ''X1'']\<rparr>\<rparr>"

text \<open>After \<^verbatim>\<open>run\<close>: the incomplete appear event arrives.\<close>

definition sd_partial :: StreamDeck where
  "sd_partial =
     snd (on_message (loads_const appear_no_state) no_render ''m'' (snd (run (streamdeck_init []))))"

text \<open>
  After \<^verbatim>\<open>run\<close>: the context appears, its hook raises once in the loop, the context
  disappears.
\<close>

definition sd_appeared :: StreamDeck where
  "sd_appeared =
     snd (on_message (loads_const appear_A) no_render ''m'' (snd (run (streamdeck_init []))))"

definition sd_failed_once :: StreamDeck where
  "sd_failed_once = snd (loop_step always_fails (AtFor 0, sd_appeared))"

definition sd_disappeared :: StreamDeck where
  "sd_disappeared = snd (on_message (loads_const disappear_A) no_render ''m'' sd_failed_once)"

section \<open>The outbound command set-state\<close>

text \<open>
  Claim C7. For every integer state, \<^verbatim>\<open>SetState\<close> with a state other than 0 and 1
  raises before anything is sent: the plugin, its socket included, is as before. With
  state 0 or 1 it returns normally and the socket has received exactly one more
  payload, the \<^verbatim>\<open>setState\<close> message carrying that state.
\<close>

theorem SetState_validates:
  "(state \<notin> {0, 1} \<longrightarrow> SetState context state p = (Some ValueError, p)) \<and>
   (state \<in> {0, 1} \<longrightarrow> SetState context state p =
      (None, p\<lparr>socket := socket p @
         [JObj [(''event'', JStr ''setState''), (''context'', context),
                (''payload'', JObj [(''state'', JInt state)])]]\<rparr>))"
  by (auto simp: SetState_def send_def)

text \<open>C7 at state 2, which is refused, and at state 1, which is sent.\<close>

theorem SetState_validates_witness:
  "(2::int) \<notin> {0, 1} \<and>
   SetState (JStr ''A'') 2 (plugin_init []) = (Some ValueError, plugin_init []) \<and>
   (1::int) \<in> {0, 1} \<and>
   socket (snd (SetState (JStr ''A'') 1 (plugin_init []))) =
     [JObj [(''event'', JStr ''setState''), (''context'', JStr ''A''),
            (''payload'', JObj [(''state'', JInt 1)])]]"
  using SetState_validates [of 2 "JStr ''A''" "plugin_init []"]
        SetState_validates [of 1 "JStr ''A''" "plugin_init []"]
  by (simp add: plugin_init_def refresh_def)

section \<open>The instance store\<close>



text \<open>With a hashable context and all fields present, \<^verbatim>\<open>setSettings\<close> runs to its end.\<close>

lemma setSettings_complete:
  assumes "subscript payload ''context'' = Inr c"
    and "hashable c"
    and "bindE (subscript payload ''payload'') (\<lambda>pp. subscript pp ''settings'') = Inr s"
    and "info_of payload = Inr i"
  shows "setSettings payload p =
           (None, p\<lparr>contexts := (if c \<in> set (contexts p) then contexts p else contexts p @ [c]),
                     ctxSettings := (ctxSettings p)(c \<mapsto> s),
                     ctxInfo := (ctxInfo p)(c \<mapsto> i)\<rparr>)"
  using assms by (simp add: setSettings_def Let_def)



text \<open>
  Claim C9. Let the payload name a string context C. In every state of a run where C
  is in the active list, after \<^verbatim>\<open>removeSettings\<close>, the handler of the disappear
  event, C is no longer listed and has no settings entry and no info entry; the other
  contexts and their entries are untouched. This holds also when an entry of C was
  missing beforehand: the handler returns normally exactly when both entries were
  there, and otherwise raises at the missing one, after the removal from the list.
  In every state where C is not listed, it raises and the plugin, so the active list
  and both maps, is unchanged. The states of a run are those with \<^verbatim>\<open>entries_ok\<close>:
  it holds after \<^verbatim>\<open>run\<close> and is kept by every frame and by the loop
  (\<^verbatim>\<open>start_entries\<close>, \<^verbatim>\<open>on_message_entries\<close>, \<^verbatim>\<open>loop_body_entries\<close>).
\<close>

theorem removeSettings_disappear:
  assumes "subscript payload ''context'' = Inr (JStr c)"
  shows "(JStr c \<in> set (contexts p) \<and> entries_ok p \<longrightarrow>
            contexts (snd (removeSettings payload p)) = remove1 (JStr c) (contexts p) \<and>
            JStr c \<notin> set (contexts (snd (removeSettings payload p))) \<and>
            ctxSettings (snd (removeSettings payload p)) = (ctxSettings p)(JStr c := None) \<and>
            ctxInfo (snd (removeSettings payload p)) = (ctxInfo p)(JStr c := None) \<and>
            (fst (removeSettings payload p) = None \<longleftrightarrow>
               ctxSettings p (JStr c) \<noteq> None \<and> ctxInfo p (JStr c) \<noteq> None)) \<and>
         (JStr c \<notin> set (contexts p) \<longrightarrow> removeSettings payload p = (Some ValueError, p))"
proof -
  have 2: "JStr c \<notin> set (contexts p) \<longrightarrow> removeSettings payload p = (Some ValueError, p)"
    using assms by (simp add: removeSettings_def)
  have 1: "JStr c \<in> set (contexts p) \<and> entries_ok p \<longrightarrow>
            contexts (snd (removeSettings payload p)) = remove1 (JStr c) (contexts p) \<and>
            JStr c \<notin> set (contexts (snd (removeSettings payload p))) \<and>
            ctxSettings (snd (removeSettings payload p)) = (ctxSettings p)(JStr c := None) \<and>
            ctxInfo (snd (removeSettings payload p)) = (ctxInfo p)(JStr c := None) \<and>
            (fst (removeSettings payload p) = None \<longleftrightarrow>
               ctxSettings p (JStr c) \<noteq> None \<and> ctxInfo p (JStr c) \<noteq> None)"
  proof (intro impI, elim conjE)
    assume a: "JStr c \<in> set (contexts p)" and e: "entries_ok p"
    from e have d: "distinct (contexts p)"
      and s: "ctxSettings p (JStr c) = None \<Longrightarrow> ctxInfo p (JStr c) = None"
      by (auto simp: entries_ok_def)
    show "contexts (snd (removeSettings payload p)) = remove1 (JStr c) (contexts p) \<and>
            JStr c \<notin> set (contexts (snd (removeSettings payload p))) \<and>
            ctxSettings (snd (removeSettings payload p)) = (ctxSettings p)(JStr c := None) \<and>
            ctxInfo (snd (removeSettings payload p)) = (ctxInfo p)(JStr c := None) \<and>
            (fst (removeSettings payload p) = None \<longleftrightarrow>
               ctxSettings p (JStr c) \<noteq> None \<and> ctxInfo p (JStr c) \<noteq> None)"
    proof (cases "ctxSettings p (JStr c)")
      case None
      with s have "ctxInfo p (JStr c) = None" by simp
      with None a d assms show ?thesis
        by (auto simp: removeSettings_def Let_def fun_upd_idem)
    next
      case (Some v)
      show ?thesis
      proof (cases "ctxInfo p (JStr c)")
        case None
        with Some a d assms show ?thesis
          by (auto simp: removeSettings_def Let_def fun_upd_idem)
      next
        case (Some w)
        with \<open>ctxSettings p (JStr c) = Some v\<close> a d assms show ?thesis
          by (auto simp: removeSettings_def Let_def)
      qed
    qed
  qed
  from 1 2 show ?thesis by blast
qed

text \<open>
  C9 on the sample events. The context appears and disappears, which empties the
  active list and both maps, and a second disappear event raises. After the appear
  event without \<^verbatim>\<open>state\<close> the context is listed with settings and no info: the
  disappear event still removes it everywhere, and raises at the missing info entry.
\<close>

theorem removeSettings_disappear_witness:
  "JStr ''ABC123'' \<in> set (contexts plugin_A) \<and> entries_ok plugin_A \<and>
   fst (removeSettings disappear_A plugin_A) = None \<and>
   contexts (snd (removeSettings disappear_A plugin_A)) = [] \<and>
   ctxSettings (snd (removeSettings disappear_A plugin_A)) (JStr ''ABC123'') = None \<and>
   ctxInfo (snd (removeSettings disappear_A plugin_A)) (JStr ''ABC123'') = None \<and>
   removeSettings disappear_A (snd (removeSettings disappear_A plugin_A)) =
     (Some ValueError, snd (removeSettings disappear_A plugin_A)) \<and>
   JStr ''ABC123'' \<in> set (contexts (plugin sd_partial)) \<and> entries_ok (plugin sd_partial) \<and>
   ctxInfo (plugin sd_partial) (JStr ''ABC123'') = None \<and>
   fst (removeSettings disappear_A (plugin sd_partial)) = Some KeyError \<and>
   contexts (snd (removeSettings disappear_A (plugin sd_partial))) = [] \<and>
   ctxSettings (snd (removeSettings disappear_A (plugin sd_partial))) (JStr ''ABC123'') = None \<and>
   ctxInfo (snd (removeSettings disappear_A (plugin sd_partial))) (JStr ''ABC123'') = None"
proof -
  have A: "plugin_A =
     (plugin_init [])\<lparr>contexts := [JStr ''ABC123''],
        ctxSettings := [JStr ''ABC123'' \<mapsto> JObj [(''audioDevice'', JStr ''Speakers'')]],
        ctxInfo := [JStr ''ABC123'' \<mapsto>
           JObj [(''coordinates'', JObj [(''column'', JInt 0), (''row'', JInt 0)]),
                 (''controller'', JStr ''Keypad''), (''state'', JInt 0),
                 (''isInMultiAction'', JBool False),
                 (''action'', JStr ''com.example.showvol'')]]\<rparr>"
    by (simp add: plugin_A_def appear_A_def setSettings_def info_of_def bindE_def
        plugin_init_def refresh_def)
  have P: "plugin sd_partial =
     (plugin_init [])\<lparr>contexts := [JStr ''ABC123''],
        ctxSettings := [JStr ''ABC123'' \<mapsto> JObj [(''audioDevice'', JStr ''Speakers'')]]\<rparr>"
    by (simp add: sd_partial_def on_message_def on_message_try_def loads_const_def
        appear_no_state_def route_def getattr_def method_name_def event_handlers_def
        upper_char_def setSettings_def info_of_def bindE_def run_def streamdeck_init_def
        plugin_init_def refresh_def)
  have c: "subscript disappear_A ''context'' = Inr (JStr ''ABC123'')"
    by (simp add: disappear_A_def)
  have a1: "JStr ''ABC123'' \<in> set (contexts plugin_A)" and e1: "entries_ok plugin_A"
    by (simp_all add: A entries_ok_def plugin_init_def refresh_def)
  have a2: "JStr ''ABC123'' \<in> set (contexts (plugin sd_partial))"
    and e2: "entries_ok (plugin sd_partial)"
    and i2: "ctxInfo (plugin sd_partial) (JStr ''ABC123'') = None"
    by (simp_all add: P entries_ok_def plugin_init_def refresh_def)
  have n3: "JStr ''ABC123'' \<notin> set (contexts (snd (removeSettings disappear_A plugin_A)))"
    using removeSettings_disappear [OF c, of plugin_A] a1 e1 by blast
  have r1: "contexts (snd (removeSettings disappear_A plugin_A)) = []"
    using removeSettings_disappear [OF c, of plugin_A] a1 e1 by (simp add: A)
  have r2: "contexts (snd (removeSettings disappear_A (plugin sd_partial))) = []"
    using removeSettings_disappear [OF c, of "plugin sd_partial"] a2 e2 by (simp add: P)
  have f1: "fst (removeSettings disappear_A plugin_A) = None"
    using removeSettings_disappear [OF c, of plugin_A] a1 e1 by (simp add: A)
  have f2: "fst (removeSettings disappear_A (plugin sd_partial)) = Some KeyError"
    by (simp add: P disappear_A_def removeSettings_def plugin_init_def refresh_def)
  show ?thesis
    using removeSettings_disappear [OF c, of plugin_A]
      removeSettings_disappear [OF c, of "plugin sd_partial"]
      removeSettings_disappear [OF c, of "snd (removeSettings disappear_A plugin_A)"]
      a1 e1 a2 e2 i2 n3 r1 r2 f1 f2
    by simp
qed

section \<open>The refresh hook of the audio plugin\<close>

text \<open>
  Claim C10. For every string context C without a settings entry or without an info
  entry, \<^verbatim>\<open>on_loop\<close> returns normally and the plugin is as before: nothing is sent
  and no field changes. So the loop may call the hook on a context that was removed
  after it was listed.
\<close>

theorem on_loop_missing_entry:
  "ctxSettings p (JStr c) = None \<or> ctxInfo p (JStr c) = None \<Longrightarrow>
   on_loop r (JStr c) p = (None, p)"
  by (auto simp: on_loop_def ctx_get_def split: option.splits)

text \<open>C10 for a context that never appeared, and for one that has settings but no info.\<close>

theorem on_loop_missing_entry_witness:
  "ctxSettings (plugin_init []) (JStr ''ABC123'') = None \<and>
   on_loop no_render (JStr ''ABC123'') (plugin_init []) = (None, plugin_init []) \<and>
   ctxInfo (plugin sd_partial) (JStr ''ABC123'') = None \<and>
   on_loop no_render (JStr ''ABC123'') (plugin sd_partial) = (None, plugin sd_partial)"
proof -
  have 1: "ctxSettings (plugin_init []) (JStr ''ABC123'') = None"
    by (simp add: plugin_init_def refresh_def)
  have 2: "ctxInfo (plugin sd_partial) (JStr ''ABC123'') = None"
    by (simp add: sd_partial_def on_message_def on_message_try_def loads_const_def
        appear_no_state_def route_def getattr_def method_name_def event_handlers_def
        upper_char_def setSettings_def info_of_def bindE_def run_def streamdeck_init_def
        plugin_init_def refresh_def)
  show ?thesis
    using 1 2 on_loop_missing_entry [of "plugin_init []" "''ABC123''" no_render]
      on_loop_missing_entry [of "plugin sd_partial" "''ABC123''" no_render]
    by simp
qed

section \<open>The polling loop\<close>

text \<open>The three ways through the body of the \<^verbatim>\<open>for\<close>, for a hashable context.\<close>

lemma loop_body_ok:
  "hook ctx (plugin sd) = (None, p) \<Longrightarrow>
   loop_body hook ctx sd = (Next, sd\<lparr>polled := polled sd @ [ctx], plugin := p\<rparr>)"
  by (simp add: loop_body_def Let_def)

lemma loop_body_raise_low:
  "hook ctx (plugin sd) = (Some e, p) \<Longrightarrow> hashable ctx \<Longrightarrow>
   count_of sd ctx + 1 < MAX_ERRORS \<Longrightarrow>
   loop_body hook ctx sd =
     (Next, sd\<lparr>polled := polled sd @ [ctx], plugin := p,
               errors := (errors sd)(ctx \<mapsto> count_of sd ctx + 1),
               logging := logging sd @ [LogError]\<rparr>)"
  by (auto simp: loop_body_def Let_def count_of_def split: option.splits)

lemma loop_body_raise_high:
  "hook ctx (plugin sd) = (Some e, p) \<Longrightarrow> hashable ctx \<Longrightarrow>
   count_of sd ctx + 1 \<ge> MAX_ERRORS \<Longrightarrow>
   loop_body hook ctx sd =
     (Break, sd\<lparr>polled := polled sd @ [ctx],
                errors := (errors sd)(ctx \<mapsto> count_of sd ctx + 1),
                logging := logging sd @ [LogError],
                plugin := send (alert ctx) p, running := False\<rparr>)"
  by (auto simp: loop_body_def Let_def count_of_def ShowAlert_def alert_def
      split: option.splits)

text \<open>Once the flag is down, the loop returns at the next test and stays returned.\<close>

lemma stopped_stays:
  "\<not> running sd \<Longrightarrow> 0 < n \<Longrightarrow> (loop_step hook ^^ n) (AtWhile, sd) = (Returned, sd)"
proof (induction n)
  case 0
  then show ?case by simp
next
  case (Suc n)
  show ?case
  proof (cases n)
    case 0
    with Suc.prems show ?thesis by simp
  next
    case (Suc m)
    with Suc.IH Suc.prems show ?thesis by simp
  qed
qed

text \<open>
  Claim C2. Let the loop be about to poll the string context C. If the hook raises
  for C, the count of C afterwards is its count before plus one, counting from 0 when
  C had no entry. If the hook returns normally, the whole counter map is as before:
  a success resets nothing.
\<close>

theorem loop_counts_failures:
  assumes "i < length (contexts (plugin sd))" and "contexts (plugin sd) ! i = JStr c"
  shows "(fst (hook (JStr c) (plugin sd)) \<noteq> None \<longrightarrow>
            errors (snd (loop_step hook (AtFor i, sd))) (JStr c) =
              Some (count_of sd (JStr c) + 1)) \<and>
         (fst (hook (JStr c) (plugin sd)) = None \<longrightarrow>
            errors (snd (loop_step hook (AtFor i, sd))) = errors sd)"
proof (cases "hook (JStr c) (plugin sd)")
  case (Pair res p)
  show ?thesis
  proof (cases res)
    case None
    with Pair assms show ?thesis by (simp add: loop_body_ok)
  next
    case (Some e)
    show ?thesis
    proof (cases "count_of sd (JStr c) + 1 < MAX_ERRORS")
      case True
      with Pair Some assms show ?thesis by (simp add: loop_body_raise_low)
    next
      case False
      with Pair Some assms show ?thesis by (simp add: loop_body_raise_high)
    qed
  qed
qed

text \<open>
  C2 after the sample context has appeared: a failing hook takes its count from no
  entry to 1, the hook of the base class leaves the map empty.
\<close>

theorem loop_counts_failures_witness:
  "0 < length (contexts (plugin sd_appeared)) \<and>
   contexts (plugin sd_appeared) ! 0 = JStr ''ABC123'' \<and>
   errors sd_appeared (JStr ''ABC123'') = None \<and>
   fst (always_fails (JStr ''ABC123'') (plugin sd_appeared)) \<noteq> None \<and>
   errors (snd (loop_step always_fails (AtFor 0, sd_appeared))) (JStr ''ABC123'') = Some 1 \<and>
   fst (on_loop_base (JStr ''ABC123'') (plugin sd_appeared)) = None \<and>
   errors (snd (loop_step on_loop_base (AtFor 0, sd_appeared))) = Map.empty"
proof -
  have c: "contexts (plugin sd_appeared) = [JStr ''ABC123'']"
    and e: "errors sd_appeared = Map.empty"
    by (simp_all add: sd_appeared_def on_message_def on_message_try_def loads_const_def
        appear_A_def route_def getattr_def method_name_def event_handlers_def upper_char_def
        setSettings_def info_of_def bindE_def Let_def run_def streamdeck_init_def
        plugin_init_def refresh_def)
  show ?thesis
    using loop_counts_failures [of 0 sd_appeared "''ABC123''" always_fails]
      loop_counts_failures [of 0 sd_appeared "''ABC123''" on_loop_base]
    by (simp add: c e count_of_def always_fails_def on_loop_base_def)
qed

text \<open>
  Claim C1. Let the loop be about to poll the string context C, let the hook raise
  for C, and let the count of C reach the threshold with this failure. Then the step
  leaves the \<^verbatim>\<open>for\<close>; the socket has received, after what the hook sent, exactly one
  payload, the \<^verbatim>\<open>showAlert\<close> for C; the running flag is false; and however many
  steps the loop is given afterwards, it has returned and the state stays the one
  reached at the break, so that no hook is called and nothing is sent again.
\<close>

theorem loop_stops_at_threshold:
  assumes "i < length (contexts (plugin sd))" and "contexts (plugin sd) ! i = JStr c"
    and "hook (JStr c) (plugin sd) = (Some e, p)"
    and "count_of sd (JStr c) + 1 \<ge> MAX_ERRORS"
  shows "fst (loop_step hook (AtFor i, sd)) = AtWhile \<and>
         \<not> running (snd (loop_step hook (AtFor i, sd))) \<and>
         socket (plugin (snd (loop_step hook (AtFor i, sd)))) = socket p @ [alert (JStr c)] \<and>
         polled (snd (loop_step hook (AtFor i, sd))) = polled sd @ [JStr c] \<and>
         (\<forall>n>0. (loop_step hook ^^ n) (loop_step hook (AtFor i, sd)) =
                  (Returned, snd (loop_step hook (AtFor i, sd))))"
  using assms by (simp add: loop_body_raise_high send_def stopped_stays)

text \<open>C1 for a context that has failed four times and fails again.\<close>

theorem loop_stops_at_threshold_witness:
  "0 < length (contexts (plugin sd_four)) \<and>
   contexts (plugin sd_four) ! 0 = JStr ''X1'' \<and>
   always_fails (JStr ''X1'') (plugin sd_four) = (Some ValueError, plugin sd_four) \<and>
   count_of sd_four (JStr ''X1'') + 1 \<ge> MAX_ERRORS \<and>
   \<not> running (snd (loop_step always_fails (AtFor 0, sd_four))) \<and>
   socket (plugin (snd (loop_step always_fails (AtFor 0, sd_four)))) = [alert (JStr ''X1'')] \<and>
   (loop_step always_fails ^^ 7) (loop_step always_fails (AtFor 0, sd_four)) =
     (Returned, snd (loop_step always_fails (AtFor 0, sd_four)))"
proof -
  have 1: "0 < length (contexts (plugin sd_four))"
    and 2: "contexts (plugin sd_four) ! 0 = JStr ''X1''"
    and 3: "always_fails (JStr ''X1'') (plugin sd_four) = (Some ValueError, plugin sd_four)"
    and 4: "count_of sd_four (JStr ''X1'') + 1 \<ge> MAX_ERRORS"
    and 5: "socket (plugin sd_four) = []"
    by (simp_all add: sd_four_def always_fails_def count_of_def MAX_ERRORS_def
        streamdeck_init_def plugin_init_def refresh_def)
  note t = loop_stops_at_threshold
    [where hook = always_fails and i = 0 and sd = sd_four and c = "''X1''", OF 1 2 3 4]
  from t have "(loop_step always_fails ^^ 7) (loop_step always_fails (AtFor 0, sd_four)) =
     (Returned, snd (loop_step always_fails (AtFor 0, sd_four)))"
    by simp
  with t 1 2 3 4 5 show ?thesis by simp
qed

text \<open>
  The whole loop on one context whose hook always raises: four passes count, the
  fifth sends the one alert and stops.
\<close>

lemma five_failures_scenario:
  "image_loop 15 always_fails
     ((streamdeck_init [])\<lparr>running := True,
        plugin := (plugin_init [])\<lparr>contexts := [JStr ''X1'']\<rparr>\<rparr>) =
   (Returned,
    (streamdeck_init [])\<lparr>running := False, errors := [JStr ''X1'' \<mapsto> 5],
       plugin := (plugin_init [])\<lparr>contexts := [JStr ''X1''], socket := [alert (JStr ''X1'')]\<rparr>,
       logging := replicate 5 LogError, polled := replicate 5 (JStr ''X1'')\<rparr>)"
  by (simp add: image_loop_def eval_nat_numeral always_fails_def loop_body_def MAX_ERRORS_def
      Let_def ShowAlert_def send_def alert_def streamdeck_init_def plugin_init_def refresh_def)

section \<open>The event router\<close>

text \<open>
  Claim C5, as stated, fails in three places. The event \<^verbatim>\<open>_loop\<close> gives the key
  \<^verbatim>\<open>on_loop\<close>, which is an attribute of the plugin but not a handler of a host event:
  the refresh hook is called with the frame as its context, and raises on it. The
  event \<^verbatim>\<open>SystemDidWakeUp\<close> gives the key of the wake-up handler, which is then
  called with the frame, not with zero arguments, and raises. For the empty event the
  subscript raises and no key is computed.
\<close>

theorem route_counterexample:
  "route (JObj [(''event'', JStr ''_loop'')]) = Call1 H_on_loop \<and>
   H_on_loop \<notin> snd ` set event_handlers \<and>
   on_message_try (loads_const (JObj [(''event'', JStr ''_loop'')])) no_render ''m''
       (streamdeck_init []) = (Some TypeError, streamdeck_init []) \<and>
   route (JObj [(''event'', JStr ''SystemDidWakeUp'')]) = Call1 H_onSystemDidWakeUp \<and>
   on_message_try (loads_const (JObj [(''event'', JStr ''SystemDidWakeUp'')])) no_render ''m''
       (streamdeck_init []) = (Some TypeError, streamdeck_init []) \<and>
   route (JObj [(''event'', JStr [])]) = Raises IndexError \<and>
   on_message_try (loads_const (JObj [(''event'', JStr [])])) no_render ''m''
       (streamdeck_init []) = (Some IndexError, streamdeck_init [])"
  by (simp add: route_def getattr_def method_name_def event_handlers_def upper_char_def
      on_message_try_def loads_const_def on_loop_def ctx_get_def streamdeck_init_def)

text \<open>
  Claim C5, amended. Take any frame that parses to a mapping whose event field is a
  non-empty string e with an ASCII first character. \<^verbatim>\<open>on_message\<close> computes the key
  "on" + uppercase(e[0]) + e[1:] and looks it up among the attributes of the plugin
  object: the handlers of the host events and the refresh hook \<^verbatim>\<open>on_loop\<close>. The
  attribute found is called, with zero arguments when e is exactly
  \<^verbatim>\<open>systemDidWakeUp\<close> and with the parsed frame for every other e; the plugin
  afterwards is the one the call leaves, and a call that raises adds a log entry.
  For \<^verbatim>\<open>systemDidWakeUp\<close> the attribute is the wake-up handler and nothing changes.
  When no attribute has the key, only a log entry is added. In every case
  \<^verbatim>\<open>on_message\<close> returns normally.
\<close>

theorem route_string_event:
  assumes "loads msg = Inr (JObj kvs)"
    and "map_of kvs ''event'' = Some (JStr e)" and "e \<noteq> []" and "is_ascii (hd e)"
  shows "on_message loads r msg sd =
           (case map_of ((''on_loop'', H_on_loop) # event_handlers)
                   (''on'' @ upper_char (hd e) # tl e) of
              None \<Rightarrow> (None, sd\<lparr>logging := logging sd @ [LogError]\<rparr>)
            | Some h \<Rightarrow>
                (case (if e = ''systemDidWakeUp'' then call0 h (plugin sd)
                       else call1 r h (JObj kvs) (plugin sd)) of
                   (None, p) \<Rightarrow> (None, sd\<lparr>plugin := p\<rparr>)
                 | (Some err, p) \<Rightarrow>
                     (None, sd\<lparr>plugin := p, logging := logging sd @ [LogError]\<rparr>))) \<and>
         (e = ''systemDidWakeUp'' \<longrightarrow>
            map_of ((''on_loop'', H_on_loop) # event_handlers)
              (''on'' @ upper_char (hd e) # tl e) = Some H_onSystemDidWakeUp \<and>
            on_message loads r msg sd = (None, sd))"
proof -
  let ?h = "map_of ((''on_loop'', H_on_loop) # event_handlers)
              (''on'' @ upper_char (hd e) # tl e)"
  have rt: "route (JObj kvs) =
             (case ?h of
                None \<Rightarrow> NoHandler
              | Some h \<Rightarrow> if e = ''systemDidWakeUp'' then Call0 h else Call1 h)"
    using assms(2,3) by (simp add: route_def getattr_def method_name_def split: option.splits)
  have 1: "on_message loads r msg sd =
           (case ?h of
              None \<Rightarrow> (None, sd\<lparr>logging := logging sd @ [LogError]\<rparr>)
            | Some h \<Rightarrow>
                (case (if e = ''systemDidWakeUp'' then call0 h (plugin sd)
                       else call1 r h (JObj kvs) (plugin sd)) of
                   (None, p) \<Rightarrow> (None, sd\<lparr>plugin := p\<rparr>)
                 | (Some err, p) \<Rightarrow>
                     (None, sd\<lparr>plugin := p, logging := logging sd @ [LogError]\<rparr>)))"
    using assms(1) rt
    by (auto simp: on_message_def on_message_try_def split: option.splits prod.splits)
  have 2: "e = ''systemDidWakeUp'' \<longrightarrow> ?h = Some H_onSystemDidWakeUp"
    by (simp add: event_handlers_def upper_char_def)
  have 3: "e = ''systemDidWakeUp'' \<longrightarrow> on_message loads r msg sd = (None, sd)"
    using 1 2 by (auto simp: call0_def)
  from 1 2 3 show ?thesis by blast
qed

text \<open>
  The amended C5 on four frames. The appear event reaches \<^verbatim>\<open>setSettings\<close>, which
  lists the context; the disappear event of a context that is not listed reaches
  \<^verbatim>\<open>removeSettings\<close>, whose exception is logged; the wake-up changes nothing; a
  name with no handler leaves one log entry.
\<close>

theorem route_string_event_witness:
  "is_ascii (hd ''willAppear'') \<and>
   on_message (loads_const appear_A) no_render ''m'' (streamdeck_init []) =
     (None, (streamdeck_init [])\<lparr>plugin := plugin_A\<rparr>) \<and>
   contexts plugin_A = [JStr ''ABC123''] \<and>
   on_message (loads_const disappear_A) no_render ''m'' (streamdeck_init []) =
     (None, (streamdeck_init [])\<lparr>logging := [LogError]\<rparr>) \<and>
   on_message (loads_const (JObj [(''event'', JStr ''systemDidWakeUp'')])) no_render ''m''
       (streamdeck_init []) = (None, streamdeck_init []) \<and>
   on_message (loads_const (JObj [(''event'', JStr ''bogus'')])) no_render ''m''
       (streamdeck_init []) = (None, (streamdeck_init [])\<lparr>logging := [LogError]\<rparr>)"
proof -
  have A: "contexts plugin_A = [JStr ''ABC123'']"
    by (simp add: plugin_A_def appear_A_def setSettings_def info_of_def bindE_def
        plugin_init_def refresh_def)
  have pa: "setSettings appear_A (plugin_init []) = (None, plugin_A)"
    by (simp add: plugin_A_def appear_A_def setSettings_def info_of_def bindE_def
        plugin_init_def refresh_def)
  have pd: "removeSettings disappear_A (plugin_init []) = (Some ValueError, plugin_init [])"
    by (simp add: disappear_A_def removeSettings_def plugin_init_def refresh_def)
  show ?thesis
    using A pa pd
      route_string_event [where loads = "loads_const appear_A" and msg = "''m''"
        and kvs = "case appear_A of JObj kvs \<Rightarrow> kvs" and e = "''willAppear''"
        and r = no_render and sd = "streamdeck_init []"]
      route_string_event [where loads = "loads_const disappear_A" and msg = "''m''"
        and kvs = "case disappear_A of JObj kvs \<Rightarrow> kvs" and e = "''willDisappear''"
        and r = no_render and sd = "streamdeck_init []"]
      route_string_event
        [where loads = "loads_const (JObj [(''event'', JStr ''systemDidWakeUp'')])"
        and msg = "''m''" and kvs = "[(''event'', JStr ''systemDidWakeUp'')]"
        and e = "''systemDidWakeUp''" and r = no_render and sd = "streamdeck_init []"]
      route_string_event [where loads = "loads_const (JObj [(''event'', JStr ''bogus'')])"
        and msg = "''m''" and kvs = "[(''event'', JStr ''bogus'')]"
        and e = "''bogus''" and r = no_render and sd = "streamdeck_init []"]
    by (simp add: is_ascii_def call0_def loads_const_def appear_A_def disappear_A_def
        event_handlers_def upper_char_def streamdeck_init_def)
qed

text \<open>
  Claim C6. For every inbound frame, whatever the parser, the frame and the state
  (a frame that does not parse, a value that is not a mapping, a missing or unknown
  event, a handler that raises), \<^verbatim>\<open>on_message\<close> returns normally. When the frame
  makes the router call no handler, the plugin object, so the active list, the
  settings map and the info map, is unchanged, and so are the running flag and the
  error counters: only the log grows.
\<close>

theorem on_message_returns:
  "fst (on_message loads r msg sd) = None \<and>
   (\<not> invokes loads msg \<longrightarrow>
      plugin (snd (on_message loads r msg sd)) = plugin sd \<and>
      running (snd (on_message loads r msg sd)) = running sd \<and>
      errors (snd (on_message loads r msg sd)) = errors sd)"
  by (auto simp: on_message_def on_message_try_def invokes_def
      split: prod.splits option.splits sum.splits dispatch.splits)

text \<open>C6 for the frame \<^verbatim>\<open>{\<close>, which does not parse: one log entry, nothing else.\<close>

theorem on_message_returns_witness:
  "\<not> invokes loads_fail ''{'' \<and>
   on_message loads_fail no_render ''{'' (streamdeck_init []) =
     (None, (streamdeck_init [])\<lparr>logging := [LogError]\<rparr>)"
  using on_message_returns [of loads_fail no_render "''{''" "streamdeck_init []"]
  by (simp add: invokes_def loads_fail_def on_message_def on_message_try_def
      streamdeck_init_def)

section \<open>The error counters and the removal of a context\<close>

lemma on_message_errors: "errors (snd (on_message loads r msg sd)) = errors sd"
  by (auto simp: on_message_def on_message_try_def
      split: prod.splits option.splits sum.splits dispatch.splits)

lemma loop_body_errors_other:
  "x \<noteq> ctx \<Longrightarrow> errors (snd (loop_body hook ctx sd)) x = errors sd x"
  by (auto simp: loop_body_def Let_def ShowAlert_def split: prod.splits option.splits)

lemma loop_body_errors_ok:
  "fst (hook ctx (plugin sd)) = None \<Longrightarrow> errors (snd (loop_body hook ctx sd)) = errors sd"
  by (auto simp: loop_body_def Let_def split: prod.splits option.splits)

text \<open>
  Claim C4, as stated, fails: a context appears, its hook raises once in the loop, and
  the context disappears. It is then absent from the active list and from both maps,
  and its counter is still 1.
\<close>

theorem errors_outlive_counterexample:
  "JStr ''ABC123'' \<notin> set (contexts (plugin sd_disappeared)) \<and>
   ctxSettings (plugin sd_disappeared) (JStr ''ABC123'') = None \<and>
   ctxInfo (plugin sd_disappeared) (JStr ''ABC123'') = None \<and>
   errors sd_disappeared (JStr ''ABC123'') = Some 1"
  by (simp add: sd_disappeared_def sd_failed_once_def sd_appeared_def on_message_def
      on_message_try_def loads_const_def appear_A_def disappear_A_def route_def getattr_def
      method_name_def event_handlers_def upper_char_def always_fails_def loop_body_def
      MAX_ERRORS_def setSettings_def removeSettings_def info_of_def bindE_def Let_def
      run_def streamdeck_init_def plugin_init_def refresh_def)

text \<open>
  Claim C4, amended. The counter of a context is written only by the polling loop, for
  the context it is polling, when the hook raises: a pass for a string context C leaves
  the counter of every other key as it is, and a pass whose hook returns normally
  leaves the whole map as it is. No inbound frame changes the map; the disappear
  handler in particular leaves the counter of the removed context in place.
\<close>

theorem errors_written_by_loop_only:
  "errors (snd (on_message loads r msg sd)) = errors sd \<and>
   (\<forall>x. x \<noteq> JStr c \<longrightarrow> errors (snd (loop_body hook (JStr c) sd)) x = errors sd x) \<and>
   (fst (hook ctx (plugin sd)) = None \<longrightarrow> errors (snd (loop_body hook ctx sd)) = errors sd)"
  by (simp add: on_message_errors loop_body_errors_other loop_body_errors_ok)

text \<open>
  The amended C4 where one context has failed four times: its disappear event, a
  failing pass for another context and a pass with the hook of the base class keep its
  count.
\<close>

theorem errors_written_by_loop_only_witness:
  "errors (snd (on_message (loads_const disappear_A) no_render ''m'' sd_four)) (JStr ''X1'') =
     Some 4 \<and>
   JStr ''X1'' \<noteq> JStr ''ABC123'' \<and>
   errors (snd (loop_body always_fails (JStr ''ABC123'') sd_four)) (JStr ''X1'') = Some 4 \<and>
   fst (on_loop_base (JStr ''X1'') (plugin sd_four)) = None \<and>
   errors (snd (loop_body on_loop_base (JStr ''X1'') sd_four)) (JStr ''X1'') = Some 4"
  using errors_written_by_loop_only [where loads = "loads_const disappear_A" and r = no_render
      and msg = "''m''" and sd = sd_four and c = "''ABC123''" and hook = always_fails]
    errors_written_by_loop_only [where loads = "loads_const disappear_A" and r = no_render
      and msg = "''m''" and sd = sd_four and ctx = "JStr ''X1''" and hook = on_loop_base]
  by (simp add: on_loop_base_def sd_four_def)

section \<open>The three parts of the instance store\<close>

lemma same_store_inv: "same_store p q \<Longrightarrow> store_inv p \<Longrightarrow> store_inv q"
  by (simp add: same_store_def store_inv_def)

lemma setSettings_inv:
  assumes "complete_appear x" and "store_inv p"
  shows "store_inv (snd (setSettings x p))"
proof -
  from assms(1) obtain c where c: "subscript x ''context'' = Inr (JStr c)"
    by (auto simp: complete_appear_def split: sum.splits json.splits)
  from assms(1) obtain s
    where s: "bindE (subscript x ''payload'') (\<lambda>pp. subscript pp ''settings'') = Inr s"
    by (cases "bindE (subscript x ''payload'') (\<lambda>pp. subscript pp ''settings'')")
       (auto simp: complete_appear_def)
  from assms(1) obtain i where i: "info_of x = Inr i"
    by (cases "info_of x") (auto simp: complete_appear_def)
  have h: "hashable (JStr c)" by simp
  show ?thesis
    unfolding setSettings_complete [OF c h s i]
    using assms(2) by (auto simp: store_inv_def)
qed

lemma removeSettings_inv:
  assumes "store_inv p"
  shows "store_inv (snd (removeSettings x p))"
  using assms
  by (auto simp: removeSettings_def store_inv_def Let_def split: sum.splits)

text \<open>\<^verbatim>\<open>get_settings\<close> may add a settings entry for a context that is not listed.\<close>

lemma get_settings_inv:
  assumes "store_inv p"
  shows "store_inv (snd (get_settings c p))"
  using assms
  by (auto simp: get_settings_def store_inv_def Let_def refresh_def send_def
      split: sum.splits)

lemma onKeyUp_store: "same_store p (snd (onKeyUp x p))"
  by (auto simp: onKeyUp_def same_store_def alert_exit_def ShowAlert_def send_def
      key_action_def set_volume_def toggle_mute_def Let_def
      split: sum.splits option.splits)

lemma on_loop_store: "same_store p (snd (on_loop r c p))"
  by (auto simp: on_loop_def same_store_def show_volume_def SetImage_def send_def Let_def
      split: sum.splits option.splits)

lemma call1_inv:
  assumes "store_inv p"
    and "h \<in> {H_onWillAppear, H_onDidReceiveSettings} \<longrightarrow> complete_appear x"
  shows "store_inv (snd (call1 r h x p))"
proof (cases h)
  case H_on_loop
  then show ?thesis
    using assms(1) on_loop_store [of p r x] by (simp add: same_store_inv)
next
  case H_onKeyUp
  then show ?thesis
    using assms(1) onKeyUp_store [of p x] by (simp add: same_store_inv)
next
  case H_onSendToPlugin
  then show ?thesis
    using assms(1) by (simp add: onSendToPlugin_def get_settings_inv split: sum.splits)
next
  case H_onPropertyInspectorDidAppear
  then show ?thesis
    using assms(1)
    by (simp add: onPropertyInspectorDidAppear_def get_settings_inv split: sum.splits)
qed (use assms in \<open>simp_all add: setSettings_inv removeSettings_inv\<close>)

lemma on_message_inv:
  assumes "store_inv (plugin sd)"
    and "case loads msg of Inl e \<Rightarrow> True | Inr parsed \<Rightarrow> frame_ok parsed"
  shows "store_inv (plugin (snd (on_message loads r msg sd)))"
proof (cases "loads msg")
  case (Inl e)
  then show ?thesis
    using assms(1) by (simp add: on_message_def on_message_try_def)
next
  case (Inr parsed)
  with assms(2) have ok: "frame_ok parsed" by simp
  show ?thesis
  proof (cases "route parsed")
    case (Call1 h)
    have "store_inv (snd (call1 r h parsed (plugin sd)))"
      using assms(1) ok Call1 by (intro call1_inv) (auto simp: frame_ok_def)
    then show ?thesis
      using Inr Call1
      by (cases "call1 r h parsed (plugin sd)")
         (auto simp: on_message_def on_message_try_def split: option.splits)
  next
    case (Call0 h)
    then show ?thesis
      using Inr assms(1)
      by (simp add: on_message_def on_message_try_def call0_def
          split: prod.splits option.splits)
  qed (use Inr assms(1) in \<open>simp_all add: on_message_def on_message_try_def\<close>)
qed

lemma loop_body_inv:
  assumes "store_inv (plugin sd)"
  shows "store_inv (plugin (snd (loop_body (on_loop r) ctx sd)))"
proof -
  have "same_store (plugin sd) (plugin (snd (loop_body (on_loop r) ctx sd)))"
    using on_loop_store [of "plugin sd" r ctx]
    by (auto simp: loop_body_def Let_def same_store_def ShowAlert_def send_def
        split: prod.splits option.splits)
  then show ?thesis
    using assms by (rule same_store_inv)
qed

lemma reachable_inv: "reachable loads r sd \<Longrightarrow> store_inv (plugin sd)"
proof (induction rule: reachable.induct)
  case (start srv)
  then show ?case
    by (simp add: run_def streamdeck_init_def plugin_init_def refresh_def store_inv_def)
next
  case (message sd msg)
  then show ?case by (simp add: on_message_inv)
next
  case (poll sd ctx)
  then show ?case by (simp add: loop_body_inv)
next
  case (close sd)
  then show ?case by (simp add: on_close_def)
next
  case (sinks sd srv)
  then show ?case by (simp add: store_inv_def)
qed

text \<open>The active list of a run never holds a context twice.\<close>

lemma reachable_distinct: "reachable loads r sd \<Longrightarrow> distinct (contexts (plugin sd))"
  using reachable_inv [of loads r sd] by (simp add: store_inv_def)

text \<open>
  Claim C3, as stated, fails: after \<^verbatim>\<open>run\<close>, an appear event whose inner payload
  has no \<^verbatim>\<open>state\<close> field lists the context and stores its settings, then raises
  while the info is built. The context is active and has no info entry.
\<close>

theorem active_iff_entries_counterexample:
  "\<not> (JStr ''ABC123'' \<in> set (contexts (plugin sd_partial)) \<longleftrightarrow>
        ctxSettings (plugin sd_partial) (JStr ''ABC123'') \<noteq> None \<and>
        ctxInfo (plugin sd_partial) (JStr ''ABC123'') \<noteq> None)"
  by (simp add: sd_partial_def on_message_def on_message_try_def loads_const_def
      appear_no_state_def route_def getattr_def method_name_def event_handlers_def
      upper_char_def setSettings_def info_of_def bindE_def Let_def run_def
      streamdeck_init_def plugin_init_def refresh_def)

text \<open>
  Claim C3, amended. In every state of a run in which each frame routed to the appear
  or settings-received handler carries a string context and all the fields the handler
  reads, whatever the other frames, the passes of the polling loop, the closing of the
  connection and the changes of the sink list, a context is in the active list if and
  only if it has a settings entry and an info entry. The settings retrieval of the
  audio plugin keeps this: the entry it may add is a settings entry alone.
\<close>

theorem active_iff_entries:
  assumes "reachable loads r sd"
  shows "c \<in> set (contexts (plugin sd)) \<longleftrightarrow>
         ctxSettings (plugin sd) c \<noteq> None \<and> ctxInfo (plugin sd) c \<noteq> None"
  using reachable_inv [OF assms] by (auto simp: store_inv_def)

text \<open>The amended C3 after the complete appear event: the context is active, with both entries.\<close>

theorem active_iff_entries_witness:
  "reachable (loads_const appear_A) no_render sd_appeared \<and>
   JStr ''ABC123'' \<in> set (contexts (plugin sd_appeared)) \<and>
   ctxSettings (plugin sd_appeared) (JStr ''ABC123'') \<noteq> None \<and>
   ctxInfo (plugin sd_appeared) (JStr ''ABC123'') \<noteq> None"
proof -
  have ok: "case loads_const appear_A ''m'' of Inl e \<Rightarrow> True | Inr parsed \<Rightarrow> frame_ok parsed"
    by (simp add: loads_const_def frame_ok_def complete_appear_def appear_A_def info_of_def
        bindE_def)
  have re: "reachable (loads_const appear_A) no_render sd_appeared"
    unfolding sd_appeared_def
    by (rule reachable.message
          [where loads = "loads_const appear_A" and r = no_render and msg = "''m''"
             and sd = "snd (run (streamdeck_init []))", OF reachable.start ok])
  have "JStr ''ABC123'' \<in> set (contexts (plugin sd_appeared))"
    by (simp add: sd_appeared_def on_message_def on_message_try_def loads_const_def
        appear_A_def route_def getattr_def method_name_def event_handlers_def upper_char_def
        setSettings_def info_of_def bindE_def Let_def run_def streamdeck_init_def
        plugin_init_def refresh_def)
  with re active_iff_entries [OF re, of "JStr ''ABC123''"] show ?thesis by simp
qed

section \<open>The active list has no duplicate\<close>

text \<open>
  Whatever the frame, complete or not, \<^verbatim>\<open>on_message\<close> keeps the active list free of
  duplicates; the loop does not write the list. So the active list of every state of
  a run is duplicate-free, which the statements on the appear and disappear handlers
  assume.
\<close>

lemma setSettings_distinct:
  "distinct (contexts p) \<Longrightarrow> distinct (contexts (snd (setSettings x p)))"
  by (auto simp: setSettings_def Let_def split: sum.splits)

lemma removeSettings_distinct:
  "distinct (contexts p) \<Longrightarrow> distinct (contexts (snd (removeSettings x p)))"
  by (auto simp: removeSettings_def Let_def split: sum.splits)

lemma get_settings_contexts: "contexts (snd (get_settings c p)) = contexts p"
  by (auto simp: get_settings_def Let_def refresh_def send_def split: sum.splits)

lemma call1_distinct:
  assumes "distinct (contexts p)"
  shows "distinct (contexts (snd (call1 r h x p)))"
proof (cases h)
  case H_on_loop
  then show ?thesis
    using assms on_loop_store [of p r x] by (simp add: same_store_def)
next
  case H_onKeyUp
  then show ?thesis
    using assms onKeyUp_store [of p x] by (simp add: same_store_def)
next
  case H_onSendToPlugin
  then show ?thesis
    using assms by (simp add: onSendToPlugin_def get_settings_contexts split: sum.splits)
next
  case H_onPropertyInspectorDidAppear
  then show ?thesis
    using assms
    by (simp add: onPropertyInspectorDidAppear_def get_settings_contexts split: sum.splits)
qed (use assms in \<open>simp_all add: setSettings_distinct removeSettings_distinct\<close>)

lemma on_message_distinct:
  assumes "distinct (contexts (plugin sd))"
  shows "distinct (contexts (plugin (snd (on_message loads r msg sd))))"
proof (cases "loads msg")
  case (Inl e)
  then show ?thesis
    using assms by (simp add: on_message_def on_message_try_def)
next
  case (Inr parsed)
  show ?thesis
  proof (cases "route parsed")
    case (Call1 h)
    have "distinct (contexts (snd (call1 r h parsed (plugin sd))))"
      using assms by (rule call1_distinct)
    then show ?thesis
      using Inr Call1
      by (cases "call1 r h parsed (plugin sd)")
         (auto simp: on_message_def on_message_try_def split: option.splits)
  next
    case (Call0 h)
    then show ?thesis
      using Inr assms
      by (simp add: on_message_def on_message_try_def call0_def
          split: prod.splits option.splits)
  qed (use Inr assms in \<open>simp_all add: on_message_def on_message_try_def\<close>)
qed

section \<open>What every state of a run keeps\<close>

text \<open>
  \<^verbatim>\<open>entries_ok\<close> holds after \<^verbatim>\<open>run\<close>; whatever the frame, complete or not,
  \<^verbatim>\<open>on_message\<close> keeps it, and so does a pass of the loop with the hook of the
  audio plugin. So every state of a run has it, which the statement on the disappear
  handler assumes.
\<close>

lemma setSettings_entries: "entries_ok p \<Longrightarrow> entries_ok (snd (setSettings x p))"
  by (auto simp: entries_ok_def setSettings_def Let_def split: sum.splits)

lemma removeSettings_entries: "entries_ok p \<Longrightarrow> entries_ok (snd (removeSettings x p))"
  by (auto simp: entries_ok_def removeSettings_def Let_def split: sum.splits)

lemma get_settings_entries: "entries_ok p \<Longrightarrow> entries_ok (snd (get_settings c p))"
  by (auto simp: entries_ok_def get_settings_def Let_def refresh_def send_def
      split: sum.splits)

lemma same_store_entries: "same_store p q \<Longrightarrow> entries_ok p \<Longrightarrow> entries_ok q"
  by (simp add: same_store_def entries_ok_def)

lemma call1_entries:
  assumes "entries_ok p"
  shows "entries_ok (snd (call1 r h x p))"
proof (cases h)
  case H_on_loop
  then show ?thesis
    using assms on_loop_store [of p r x] by (simp add: same_store_entries)
next
  case H_onKeyUp
  then show ?thesis
    using assms onKeyUp_store [of p x] by (simp add: same_store_entries)
next
  case H_onSendToPlugin
  then show ?thesis
    using assms by (simp add: onSendToPlugin_def get_settings_entries split: sum.splits)
next
  case H_onPropertyInspectorDidAppear
  then show ?thesis
    using assms
    by (simp add: onPropertyInspectorDidAppear_def get_settings_entries split: sum.splits)
qed (use assms in \<open>simp_all add: setSettings_entries removeSettings_entries\<close>)

lemma on_message_entries:
  assumes "entries_ok (plugin sd)"
  shows "entries_ok (plugin (snd (on_message loads r msg sd)))"
proof (cases "loads msg")
  case (Inl e)
  then show ?thesis
    using assms by (simp add: on_message_def on_message_try_def)
next
  case (Inr parsed)
  show ?thesis
  proof (cases "route parsed")
    case (Call1 h)
    have "entries_ok (snd (call1 r h parsed (plugin sd)))"
      using assms by (rule call1_entries)
    then show ?thesis
      using Inr Call1
      by (cases "call1 r h parsed (plugin sd)")
         (auto simp: on_message_def on_message_try_def split: option.splits)
  next
    case (Call0 h)
    then show ?thesis
      using Inr assms
      by (simp add: on_message_def on_message_try_def call0_def
          split: prod.splits option.splits)
  qed (use Inr assms in \<open>simp_all add: on_message_def on_message_try_def\<close>)
qed

lemma loop_body_entries:
  assumes "entries_ok (plugin sd)"
  shows "entries_ok (plugin (snd (loop_body (on_loop r) ctx sd)))"
proof -
  have "same_store (plugin sd) (plugin (snd (loop_body (on_loop r) ctx sd)))"
    using on_loop_store [of "plugin sd" r ctx]
    by (auto simp: loop_body_def Let_def same_store_def ShowAlert_def send_def
        split: prod.splits option.splits)
  then show ?thesis
    using assms by (rule same_store_entries)
qed

lemma start_entries: "entries_ok (plugin (snd (run (streamdeck_init srv))))"
  by (simp add: entries_ok_def run_def streamdeck_init_def plugin_init_def refresh_def)

lemma on_close_entries: "entries_ok (plugin sd) \<Longrightarrow> entries_ok (plugin (on_close sd))"
  by (simp add: on_close_def)

section \<open>Event names that do not start with an ASCII character\<close>

text \<open>
  \<^verbatim>\<open>upper_char\<close> keeps such a character where \<^verbatim>\<open>str.upper()\<close> may change it, so
  the key built here can differ from the one the code builds. The attribute found does
  not. Here the third character of the key is the event's first, and the third
  character of every attribute name is ASCII, so nothing is found. In the code the
  upper-case form of a character from 128 to 255 is not ASCII either, but for the
  character 223, whose form is \<^verbatim>\<open>SS\<close>; no attribute name starts with
  \<^verbatim>\<open>onSS\<close>, so nothing is found there as well.
\<close>

lemma lower_ascii: "c \<in> set ''abcdefghijklmnopqrstuvwxyz'' \<Longrightarrow> is_ascii c"
  by (auto simp: is_ascii_def)

lemma upper_char_non_ascii:
  assumes "\<not> is_ascii c"
  shows "upper_char c = c"
proof (cases "map_of (zip ''abcdefghijklmnopqrstuvwxyz'' ''ABCDEFGHIJKLMNOPQRSTUVWXYZ'') c")
  case None
  then show ?thesis by (simp add: upper_char_def)
next
  case (Some u)
  then have "(c, u) \<in> set (zip ''abcdefghijklmnopqrstuvwxyz'' ''ABCDEFGHIJKLMNOPQRSTUVWXYZ'')"
    by (rule map_of_SomeD)
  then have "c \<in> set ''abcdefghijklmnopqrstuvwxyz''"
    by (rule set_zip_leftD)
  with assms lower_ascii show ?thesis by blast
qed

lemma getattr_third:
  assumes "getattr name = Some h"
  shows "is_ascii (name ! 2)"
proof -
  from assms have "(name, h) \<in> set ((''on_loop'', H_on_loop) # event_handlers)"
    unfolding getattr_def by (rule map_of_SomeD)
  then have "name \<in> fst ` set ((''on_loop'', H_on_loop) # event_handlers)"
    by force
  then show ?thesis
    unfolding event_handlers_def by (auto simp: is_ascii_def)
qed

lemma getattr_non_ascii:
  assumes "e \<noteq> []" and "\<not> is_ascii (hd e)"
  shows "getattr (method_name e) = None"
proof (cases "getattr (method_name e)")
  case None
  then show ?thesis .
next
  case (Some h)
  then have "is_ascii (method_name e ! 2)" by (rule getattr_third)
  moreover have "method_name e ! 2 = hd e"
    using assms(2) by (simp add: method_name_def upper_char_non_ascii)
  ultimately show ?thesis using assms(2) by simp
qed

end
